theory Spec2Isabelle
  imports Main "HOL-Library.Multiset"
begin

section \<open>The proxy pool of wggesuchtstats/util.py\<close>

text \<open>
  The module keeps two globals, \<^verbatim>\<open>proxy_list: list[str]\<close> and
  \<^verbatim>\<open>proxy_failure_counts: defaultdict[str, int]\<close>. Every function below takes the pair as
  a record and returns it updated. The lock is not modelled: the functions are taken one
  at a time, as a single thread runs them.

  A Python \<^verbatim>\<open>str\<close> is a \<open>string\<close> here, each \<open>char\<close> standing for the code point of the
  same number (code points below 256). The failure counts are Python integers, \<open>int\<close>.
\<close>

subsection \<open>Tunables\<close>

definition PROXY_REMOVE_AFTER :: int where
  "PROXY_REMOVE_AFTER = 2"

definition SOFT_EXCLUDE_AFTER :: int where
  "SOFT_EXCLUDE_AFTER = 1"

definition MAX_ATTEMPTS :: int where
  "MAX_ATTEMPTS = 200"

subsection \<open>State\<close>

record pool =
  proxy_list :: "string list"
  proxy_failure_counts :: "string \<rightharpoonup> int"

definition initial_pool :: pool where
  "initial_pool = \<lparr>proxy_list = [], proxy_failure_counts = Map.empty\<rparr>"

text \<open>
  \<^verbatim>\<open>proxy_failure_counts[p]\<close> on a \<^verbatim>\<open>defaultdict(int)\<close>: a key that is missing is
  inserted with the value 0 and 0 is returned. The read therefore yields the value and the
  dictionary after the read.
\<close>

definition dd_getitem :: "(string \<rightharpoonup> int) \<Rightarrow> string \<Rightarrow> int \<times> (string \<rightharpoonup> int)" where
  "dd_getitem m k = (case m k of None \<Rightarrow> (0, m(k \<mapsto> 0)) | Some v \<Rightarrow> (v, m))"

text \<open>The count an address stands at: what a read of the dictionary would return.\<close>

definition count_of :: "pool \<Rightarrow> string \<Rightarrow> int" where
  "count_of s p = fst (dd_getitem (proxy_failure_counts s) p)"

subsection \<open>The pool loader\<close>

text \<open>
  \<^verbatim>\<open>str.isspace\<close> for the code points below 256: tab, line feed, vertical tab, form feed,
  carriage return, the separators 28 to 31, space, next line (133) and no-break space (160).
\<close>

definition isspace :: "char \<Rightarrow> bool" where
  "isspace c = ((of_char c :: nat) \<in> {9, 10, 11, 12, 13, 28, 29, 30, 31, 32, 133, 160})"

definition strip :: "string \<Rightarrow> string" where
  "strip ln = rev (dropWhile isspace (rev (dropWhile isspace ln)))"

text \<open>
  \<^verbatim>\<open>_get_proxies\<close> takes what \<^verbatim>\<open>open(path).read().splitlines()\<close> gives: \<open>Some lines\<close>, or
  \<open>None\<close> when opening, reading or decoding raises (the \<^verbatim>\<open>except Exception\<close> branch).
\<close>

definition get_proxies :: "string list option \<Rightarrow> string list" where
  "get_proxies src =
     (case src of
        None \<Rightarrow> []
      | Some lines \<Rightarrow> map strip (filter (\<lambda>ln. strip ln \<noteq> [] \<and> CHR '':'' \<in> set ln) lines))"

subsection \<open>The health tracker\<close>

text \<open>\<^verbatim>\<open>list.remove\<close> deletes the first occurrence only: \<open>remove1\<close>.\<close>

definition remove_failed_proxy_locked :: "string \<Rightarrow> pool \<Rightarrow> pool" where
  "remove_failed_proxy_locked p s =
     \<lparr>proxy_list = (if p \<in> set (proxy_list s) then remove1 p (proxy_list s) else proxy_list s),
      proxy_failure_counts = (proxy_failure_counts s)(p := None)\<rparr>"

text \<open>
  The argument is \<^verbatim>\<open>str | None\<close>; \<^verbatim>\<open>if not p: return\<close> leaves the pool alone for \<^verbatim>\<open>None\<close>
  and for the empty string.
\<close>

definition handle_proxy_failure :: "string option \<Rightarrow> pool \<Rightarrow> pool" where
  "handle_proxy_failure po s =
     (case po of
        None \<Rightarrow> s
      | Some p \<Rightarrow>
          if p = [] then s
          else
            (let c = fst (dd_getitem (proxy_failure_counts s) p) + 1;
                 s1 = s\<lparr>proxy_failure_counts := (snd (dd_getitem (proxy_failure_counts s) p))(p \<mapsto> c)\<rparr>
             in if c \<ge> PROXY_REMOVE_AFTER then remove_failed_proxy_locked p s1 else s1))"

definition handle_proxy_success :: "string option \<Rightarrow> pool \<Rightarrow> pool" where
  "handle_proxy_success po s =
     (case po of
        None \<Rightarrow> s
      | Some p \<Rightarrow>
          if p = [] then s
          else s\<lparr>proxy_failure_counts := (proxy_failure_counts s)(p \<mapsto> 0)\<rparr>)"

definition ensure_global_proxies :: "string list option \<Rightarrow> pool \<Rightarrow> pool" where
  "ensure_global_proxies src s =
     (if proxy_list s \<noteq> [] then s
      else
        (let new_list = get_proxies src
         in if proxy_list s = [] \<and> new_list \<noteq> [] then s\<lparr>proxy_list := new_list\<rparr> else s))"

text \<open>
  The comprehension \<^verbatim>\<open>[p for p in proxy_list if proxy_failure_counts[p] < SOFT_EXCLUDE_AFTER]\<close>
  reads the dictionary once for each element, in order, and each read may insert.
\<close>

fun below_soft :: "string list \<Rightarrow> (string \<rightharpoonup> int) \<Rightarrow> string list \<times> (string \<rightharpoonup> int)" where
  "below_soft [] m = ([], m)"
| "below_soft (p # ps) m =
     (let c = fst (dd_getitem m p);
          r = below_soft ps (snd (dd_getitem m p))
      in (if c < SOFT_EXCLUDE_AFTER then p # fst r else fst r, snd r))"

definition snapshot_local :: "pool \<Rightarrow> string list \<times> pool" where
  "snapshot_local s =
     (let r = below_soft (proxy_list s) (proxy_failure_counts s);
          s' = s\<lparr>proxy_failure_counts := snd r\<rparr>
      in (if fst r \<noteq> [] then fst r else proxy_list s', s'))"

definition is_retryable_status :: "int \<Rightarrow> bool" where
  "is_retryable_status code = (code \<in> {301, 302, 401, 403, 407, 429, 500, 502, 503, 504})"

text \<open>
  \<^verbatim>\<open>sum(1 for p in proxy_list if proxy_failure_counts[p] < PROXY_REMOVE_AFTER)\<close>, again one
  read of the dictionary for each element.
\<close>

fun count_healthy :: "string list \<Rightarrow> (string \<rightharpoonup> int) \<Rightarrow> int \<times> (string \<rightharpoonup> int)" where
  "count_healthy [] m = (0, m)"
| "count_healthy (p # ps) m =
     (let c = fst (dd_getitem m p);
          r = count_healthy ps (snd (dd_getitem m p))
      in (if c < PROXY_REMOVE_AFTER then 1 + fst r else fst r, snd r))"

record proxy_stats =
  total_proxies :: int
  healthy_proxies :: int
  failure_counts :: "string \<rightharpoonup> int"

text \<open>
  The dictionary display is evaluated left to right, so \<^verbatim>\<open>dict(proxy_failure_counts)\<close>
  copies the dictionary as the reads of \<^verbatim>\<open>healthy_proxies\<close> left it.
\<close>

definition get_proxy_stats :: "pool \<Rightarrow> proxy_stats \<times> pool" where
  "get_proxy_stats s =
     (let r = count_healthy (proxy_list s) (proxy_failure_counts s)
      in (\<lparr>total_proxies = int (length (proxy_list s)),
           healthy_proxies = fst r,
           failure_counts = snd r\<rparr>,
          s\<lparr>proxy_failure_counts := snd r\<rparr>))"

section \<open>The fetch orchestrator\<close>

subsection \<open>The world outside\<close>

text \<open>
  \<^verbatim>\<open>random.shuffle\<close> is the standard library's exchange shuffle:
  \<^verbatim>\<open>for i in reversed(range(1, len(x))): j = randbelow(i + 1); x[i], x[j] = x[j], x[i]\<close>.
  The draws are an input: \<open>draw i\<close> is reduced modulo \<open>i + 1\<close>, so every function of draws
  is a run of the generator and every order of the list comes from some draws.
\<close>

fun shuffle_from :: "(nat \<Rightarrow> nat) \<Rightarrow> nat \<Rightarrow> 'a list \<Rightarrow> 'a list" where
  "shuffle_from draw 0 xs = xs"
| "shuffle_from draw (Suc i) xs =
     (let j = draw (Suc i) mod (Suc (Suc i))
      in shuffle_from draw i (xs[Suc i := xs ! j, j := xs ! Suc i]))"

definition shuffle :: "(nat \<Rightarrow> nat) \<Rightarrow> 'a list \<Rightarrow> 'a list" where
  "shuffle draw xs = shuffle_from draw (length xs - 1) xs"

text \<open>
  A \<^verbatim>\<open>requests.Response\<close>, as far as the module looks at it, and what one
  \<^verbatim>\<open>_session.get\<close> does: it returns a response or raises one of the exceptions the
  \<^verbatim>\<open>except\<close> clause lists (all of them are \<^verbatim>\<open>RequestException\<close>).
\<close>

record response =
  status_code :: int
  body :: string

datatype attempt_outcome = Returns response | Raises

text \<open>
  The inputs of one call of \<^verbatim>\<open>requests_get\<close>. Each is indexed by the moment of the call
  it answers: 0 for the statements before the loop, and the number of the attempt (1, 2,
  ...) for the iteration that makes it. The proxy file may change between two reads.
\<close>

record world =
  read_lines :: "nat \<Rightarrow> string list option"
  randbelow :: "nat \<Rightarrow> nat \<Rightarrow> nat"
  session_get :: "string \<Rightarrow> nat \<Rightarrow> string \<Rightarrow> attempt_outcome"

subsection \<open>Results\<close>

text \<open>
  Both \<^verbatim>\<open>raise\<close> statements raise \<^verbatim>\<open>RequestException\<close>; the message tells them apart:
  \<^verbatim>\<open>"No proxies available"\<close>, or \<^verbatim>\<open>"Failed after {max_attempts} attempts. Stats: ..."\<close>.
  \<^verbatim>\<open>local[i]\<close> raises \<^verbatim>\<open>IndexError\<close> out of range.
\<close>

datatype message = No_proxies_available | Failed_after int proxy_stats

datatype error = RequestException message | IndexError

text \<open>
  One entry for each attempt: its number and proxy (the arguments of \<^verbatim>\<open>on_attempt\<close>), the
  pool at that moment, and whether the attempt ended in \<^verbatim>\<open>_handle_proxy_failure\<close> (else
  in \<^verbatim>\<open>_handle_proxy_success\<close>).
\<close>

record attempt_entry =
  entry_attempt :: nat
  entry_proxy :: string
  entry_pool :: pool
  entry_failed :: bool

record fetch_result =
  outcome :: "error + response"
  pool_after :: pool
  attempts :: nat
  attempt_log :: "attempt_entry list"

subsection \<open>The retry loop\<close>

text \<open>
  The block under \<^verbatim>\<open>if i >= len(local)\<close>: re-seed, take a new snapshot, raise when it is
  empty, else shuffle it and start at index 0. \<open>Inl\<close> is the raise, with the pool as the
  two calls left it.
\<close>

definition refill :: "world \<Rightarrow> nat \<Rightarrow> pool \<Rightarrow> string list \<Rightarrow> nat \<Rightarrow> pool + (pool \<times> string list \<times> nat)" where
  "refill w t s local i =
     (if i \<ge> length local then
        (let s1 = ensure_global_proxies (read_lines w t) s;
             r = snapshot_local s1
         in if fst r = [] then Inl (snd r)
            else Inr (snd r, shuffle (randbelow w t) (fst r), 0))
      else Inr (s, local, i))"

function fetch_loop ::
  "world \<Rightarrow> string \<Rightarrow> int \<Rightarrow> pool \<Rightarrow> string list \<Rightarrow> nat \<Rightarrow> nat \<Rightarrow> attempt_entry list \<Rightarrow> fetch_result" where
  "fetch_loop w url max_attempts s local i attempt lg =
     (if \<not> int attempt < max_attempts then
        \<lparr>outcome = Inl (RequestException (Failed_after max_attempts (fst (get_proxy_stats s)))),
         pool_after = snd (get_proxy_stats s), attempts = attempt, attempt_log = lg\<rparr>
      else
        (case refill w (Suc attempt) s local i of
           Inl s1 \<Rightarrow>
             \<lparr>outcome = Inl (RequestException No_proxies_available),
              pool_after = s1, attempts = attempt, attempt_log = lg\<rparr>
         | Inr (s1, local1, i1) \<Rightarrow>
             if \<not> i1 < length local1 then
               \<lparr>outcome = Inl IndexError, pool_after = s1, attempts = attempt, attempt_log = lg\<rparr>
             else
               (let proxy = local1 ! i1;
                    e = \<lparr>entry_attempt = Suc attempt, entry_proxy = proxy, entry_pool = s1,
                         entry_failed = True\<rparr>
                in case session_get w url (Suc attempt) proxy of
                     Returns r \<Rightarrow>
                       if is_retryable_status (status_code r) then
                         fetch_loop w url max_attempts (handle_proxy_failure (Some proxy) s1)
                           local1 (Suc i1) (Suc attempt) (lg @ [e])
                       else
                         \<lparr>outcome = Inr r, pool_after = handle_proxy_success (Some proxy) s1,
                          attempts = Suc attempt,
                          attempt_log = lg @ [e\<lparr>entry_failed := False\<rparr>]\<rparr>
                   | Raises \<Rightarrow>
                       fetch_loop w url max_attempts (handle_proxy_failure (Some proxy) s1)
                         local1 (Suc i1) (Suc attempt) (lg @ [e]))))"
  by pat_completeness auto
termination
  by (relation "measure (\<lambda>(w, url, max_attempts, s, local, i, attempt, lg). nat (max_attempts - int attempt))")
     auto

declare fetch_loop.simps [simp del]

text \<open>
  \<^verbatim>\<open>requests_get\<close>; the timeouts reach only \<^verbatim>\<open>_session.get\<close>, whose outcome is an input,
  and \<^verbatim>\<open>on_attempt\<close> is kept as the log of its calls.
\<close>

definition requests_get :: "world \<Rightarrow> string \<Rightarrow> int \<Rightarrow> pool \<Rightarrow> fetch_result" where
  "requests_get w url max_attempts s =
     (let s1 = ensure_global_proxies (read_lines w 0) s;
          r = snapshot_local s1;
          local = shuffle (randbelow w 0) (fst r)
      in fetch_loop w url max_attempts (snd r) local 0 0 [])"

section \<open>Notions used in the statements\<close>

text \<open>
  The dictionary after one \<^verbatim>\<open>defaultdict\<close> read of each address in \<open>ps\<close>: the addresses
  that had no entry have the entry 0, nothing else changes.
\<close>

definition touched :: "string list \<Rightarrow> (string \<rightharpoonup> int) \<Rightarrow> (string \<rightharpoonup> int)" where
  "touched ps m = (\<lambda>k. if k \<in> set ps \<and> m k = None then Some 0 else m k)"

text \<open>
  The loader as the specification words it: a line qualifies when, after trimming
  whitespace, it is non-empty and contains a colon; the qualifying lines are returned
  trimmed, and a source that cannot be read gives the empty sequence.
\<close>

definition qualifies :: "string \<Rightarrow> bool" where
  "qualifies ln = (strip ln \<noteq> [] \<and> CHR '':'' \<in> set (strip ln))"

definition load_spec :: "string list option \<Rightarrow> string list" where
  "load_spec src = (case src of None \<Rightarrow> [] | Some lines \<Rightarrow> map strip (filter qualifies lines))"

text \<open>
  The classification of one attempt: it failed when \<^verbatim>\<open>_session.get\<close> raised or returned a
  retryable status. \<open>log_entry\<close> abbreviates an entry of the attempt log.
\<close>

definition attempt_failed :: "attempt_outcome \<Rightarrow> bool" where
  "attempt_failed out = (case out of Raises \<Rightarrow> True | Returns r \<Rightarrow> is_retryable_status (status_code r))"

definition log_entry :: "nat \<Rightarrow> string \<Rightarrow> pool \<Rightarrow> bool \<Rightarrow> attempt_entry" where
  "log_entry n p s f = \<lparr>entry_attempt = n, entry_proxy = p, entry_pool = s, entry_failed = f\<rparr>"

text \<open>Concrete pools for the examples.\<close>

definition pool_a :: pool where
  "pool_a = \<lparr>proxy_list = [''p1:8080'', ''p2:8080''],
             proxy_failure_counts = [''p1:8080'' \<mapsto> 1, ''p2:8080'' \<mapsto> 1]\<rparr>"

definition pool_b :: pool where
  "pool_b = \<lparr>proxy_list = [''p1:8080''], proxy_failure_counts = Map.empty\<rparr>"

definition world_retry_once :: world where
  "world_retry_once =
     \<lparr>read_lines = (\<lambda>t. Some [''p1:8080'']),
      randbelow = (\<lambda>t i. 0),
      session_get = (\<lambda>url n p. if n = 1 then Returns \<lparr>status_code = 429, body = ''''\<rparr>
                               else Returns \<lparr>status_code = 200, body = ''ok''\<rparr>)\<rparr>"

definition world_no_file :: world where
  "world_no_file =
     \<lparr>read_lines = (\<lambda>t. None), randbelow = (\<lambda>t i. 0), session_get = (\<lambda>url n p. Raises)\<rparr>"

definition world_all_raise :: world where
  "world_all_raise =
     \<lparr>read_lines = (\<lambda>t. Some [''p1:8080'']), randbelow = (\<lambda>t i. 0), session_get = (\<lambda>url n p. Raises)\<rparr>"


text \<open>
  The operations on the pool, to speak of every sequence of them: the three of the health
  tracker, lazy seeding with what the file holds at that moment, the statistics, and a
  whole call of \<^verbatim>\<open>requests_get\<close>.
\<close>

datatype pool_op =
    Record_success "string option"
  | Record_failure "string option"
  | Lazy_seed "string list option"
  | Snapshot
  | Stats
  | Fetch world string int

fun apply_op :: "pool_op \<Rightarrow> pool \<Rightarrow> pool" where
  "apply_op (Record_success po) s = handle_proxy_success po s"
| "apply_op (Record_failure po) s = handle_proxy_failure po s"
| "apply_op (Lazy_seed src) s = ensure_global_proxies src s"
| "apply_op Snapshot s = snd (snapshot_local s)"
| "apply_op Stats s = snd (get_proxy_stats s)"
| "apply_op (Fetch w url max_attempts) s = pool_after (requests_get w url max_attempts s)"

fun run_ops :: "pool_op list \<Rightarrow> pool \<Rightarrow> pool" where
  "run_ops [] s = s"
| "run_ops (op # ops) s = run_ops ops (apply_op op s)"

text \<open>
  The invariant of the specification: an address whose entry in the failure-count
  dictionary has reached \<^verbatim>\<open>PROXY_REMOVE_AFTER\<close> is not in the address list. The code keeps
  the stronger \<open>counts_bounded\<close>: no entry ever reaches the threshold.
\<close>

definition pool_invariant :: "pool \<Rightarrow> bool" where
  "pool_invariant s =
     (\<forall>p c. proxy_failure_counts s p = Some c \<and> PROXY_REMOVE_AFTER \<le> c \<longrightarrow> p \<notin> set (proxy_list s))"

definition counts_bounded :: "pool \<Rightarrow> bool" where
  "counts_bounded s = (\<forall>p c. proxy_failure_counts s p = Some c \<longrightarrow> c < PROXY_REMOVE_AFTER)"



definition pool_two :: pool where
  "pool_two = \<lparr>proxy_list = [''p1:8080'', ''p2:8080''], proxy_failure_counts = Map.empty\<rparr>"

definition pool_twice :: pool where
  "pool_twice = \<lparr>proxy_list = [''p1:8080'', ''p1:8080''], proxy_failure_counts = Map.empty\<rparr>"

section \<open>Lemmas\<close>

lemma fst_dd_getitem: "fst (dd_getitem m k) = (case m k of None \<Rightarrow> 0 | Some v \<Rightarrow> v)"
  by (simp add: dd_getitem_def split: option.splits)

lemma snd_dd_getitem: "snd (dd_getitem m k) = (case m k of None \<Rightarrow> m(k \<mapsto> 0) | Some v \<Rightarrow> m)"
  by (simp add: dd_getitem_def split: option.splits)

lemma fst_dd_getitem_snd: "fst (dd_getitem (snd (dd_getitem m k)) p) = fst (dd_getitem m p)"
  by (simp add: dd_getitem_def split: option.splits)

lemma touched_Nil: "touched [] m = m"
  by (simp add: touched_def)

lemma touched_Cons: "touched ps (snd (dd_getitem m p)) = touched (p # ps) m"
  by (auto simp: touched_def dd_getitem_def fun_eq_iff split: option.splits)

lemma fst_dd_getitem_touched: "fst (dd_getitem (touched ps m) p) = fst (dd_getitem m p)"
  by (simp add: dd_getitem_def touched_def split: option.splits)

lemma snd_below_soft: "snd (below_soft ps m) = touched ps m"
  by (induction ps arbitrary: m) (simp_all add: touched_Nil touched_Cons Let_def)

lemma fst_below_soft:
  "fst (below_soft ps m) = filter (\<lambda>p. fst (dd_getitem m p) < SOFT_EXCLUDE_AFTER) ps"
  by (induction ps arbitrary: m) (simp_all add: Let_def fst_dd_getitem_snd)

lemma snd_count_healthy: "snd (count_healthy ps m) = touched ps m"
  by (induction ps arbitrary: m) (simp_all add: touched_Nil touched_Cons Let_def)

lemma fst_count_healthy:
  "fst (count_healthy ps m) = int (length (filter (\<lambda>p. fst (dd_getitem m p) < PROXY_REMOVE_AFTER) ps))"
  by (induction ps arbitrary: m) (simp_all add: Let_def fst_dd_getitem_snd)

lemma colon_not_space: "\<not> isspace CHR '':''"
  by (simp add: isspace_def)

lemma mem_dropWhile: "\<not> P c \<Longrightarrow> c \<in> set (dropWhile P xs) \<longleftrightarrow> c \<in> set xs"
  by (induction xs) auto

lemma colon_in_strip: "CHR '':'' \<in> set (strip ln) \<longleftrightarrow> CHR '':'' \<in> set ln"
  by (simp add: strip_def mem_dropWhile colon_not_space)

lemma count_of_alt: "count_of s p = (case proxy_failure_counts s p of None \<Rightarrow> 0 | Some v \<Rightarrow> v)"
  by (simp add: count_of_def fst_dd_getitem)

lemma fst_snapshot_local:
  "fst (snapshot_local s) =
     (if filter (\<lambda>p. count_of s p < SOFT_EXCLUDE_AFTER) (proxy_list s) \<noteq> []
      then filter (\<lambda>p. count_of s p < SOFT_EXCLUDE_AFTER) (proxy_list s)
      else proxy_list s)"
  by (simp add: snapshot_local_def Let_def fst_below_soft count_of_def)

lemma snd_snapshot_local:
  "snd (snapshot_local s) = s\<lparr>proxy_failure_counts := touched (proxy_list s) (proxy_failure_counts s)\<rparr>"
  by (simp add: snapshot_local_def Let_def snd_below_soft)

lemma get_proxy_stats_eq:
  "get_proxy_stats s =
     (\<lparr>total_proxies = int (length (proxy_list s)),
       healthy_proxies = int (length (filter (\<lambda>p. count_of s p < PROXY_REMOVE_AFTER) (proxy_list s))),
       failure_counts = touched (proxy_list s) (proxy_failure_counts s)\<rparr>,
      s\<lparr>proxy_failure_counts := touched (proxy_list s) (proxy_failure_counts s)\<rparr>)"
  by (simp add: get_proxy_stats_def Let_def fst_count_healthy snd_count_healthy count_of_def)

lemma length_shuffle_from: "length (shuffle_from d n xs) = length xs"
  by (induction n arbitrary: xs) (simp_all add: Let_def)

lemma length_shuffle: "length (shuffle d xs) = length xs"
  by (simp add: shuffle_def length_shuffle_from)

lemma mset_shuffle_from: "n < length xs \<Longrightarrow> mset (shuffle_from d n xs) = mset xs"
proof (induction n arbitrary: xs)
  case 0
  then show ?case by simp
next
  case (Suc n)
  have j: "d (Suc n) mod Suc (Suc n) < length xs"
    using Suc.prems by (meson less_Suc_eq_le less_le_trans mod_less_divisor zero_less_Suc Suc_leI)
  show ?case
    using Suc.prems j by (simp add: Let_def Suc.IH mset_swap)
qed

lemma mset_shuffle: "mset (shuffle d xs) = mset xs"
  by (cases xs) (simp_all add: shuffle_def mset_shuffle_from)

lemma shuffle_eq_Nil: "shuffle d xs = [] \<longleftrightarrow> xs = []"
  using length_shuffle [of d xs] by (metis length_0_conv)

lemma shuffle_two: "shuffle d [a, b] = (if d 1 mod 2 = 0 then [b, a] else [a, b])"
proof -
  have "d (Suc 0) mod Suc (Suc 0) = 0 \<or> d (Suc 0) mod Suc (Suc 0) = Suc 0"
    by presburger
  then show ?thesis
    by (auto simp: shuffle_def Let_def numeral_2_eq_2)
qed

lemma ensure_nonempty: "proxy_list s \<noteq> [] \<Longrightarrow> ensure_global_proxies src s = s"
  by (simp add: ensure_global_proxies_def)

lemma refill_Inr: "refill w t s local i = Inr (s1, local1, i1) \<Longrightarrow> i1 < length local1"
  by (auto simp: refill_def Let_def shuffle_eq_Nil split: if_splits)

lemma refill_Inl:
  "refill w t s local i = Inl s1 \<Longrightarrow>
     s1 = s \<and> proxy_list s = [] \<and> get_proxies (read_lines w t) = [] \<and> length local \<le> i"
  by (auto simp: refill_def Let_def fst_snapshot_local snd_snapshot_local ensure_global_proxies_def
      touched_def split: if_splits)

lemma fetch_loop_no_IndexError:
  "outcome (fetch_loop w url ma s local i attempt lg) \<noteq> Inl IndexError"
proof (induction w url ma s local i attempt lg rule: fetch_loop.induct)
  case (1 w url ma s local i attempt lg)
  show ?case
    apply (subst fetch_loop.simps)
    using 1
    apply (auto split: sum.splits prod.splits attempt_outcome.splits simp: Let_def dest: refill_Inr)
    done
qed



lemma loop_done:
  "\<not> int attempt < ma \<Longrightarrow>
     fetch_loop w url ma s local i attempt lg =
       \<lparr>outcome = Inl (RequestException (Failed_after ma (fst (get_proxy_stats s)))),
        pool_after = snd (get_proxy_stats s), attempts = attempt, attempt_log = lg\<rparr>"
  by (subst fetch_loop.simps) simp

lemma loop_empty:
  "int attempt < ma \<Longrightarrow> refill w (Suc attempt) s local i = Inl s1 \<Longrightarrow>
     fetch_loop w url ma s local i attempt lg =
       \<lparr>outcome = Inl (RequestException No_proxies_available),
        pool_after = s1, attempts = attempt, attempt_log = lg\<rparr>"
  by (subst fetch_loop.simps) simp

lemma loop_success:
  "int attempt < ma \<Longrightarrow> refill w (Suc attempt) s local i = Inr (s1, local1, i1) \<Longrightarrow>
   session_get w url (Suc attempt) (local1 ! i1) = Returns r \<Longrightarrow>
   \<not> is_retryable_status (status_code r) \<Longrightarrow>
     fetch_loop w url ma s local i attempt lg =
       \<lparr>outcome = Inr r, pool_after = handle_proxy_success (Some (local1 ! i1)) s1,
        attempts = Suc attempt,
        attempt_log = lg @ [log_entry (Suc attempt) (local1 ! i1) s1 False]\<rparr>"
  by (subst fetch_loop.simps) (auto simp: Let_def log_entry_def dest: refill_Inr)

lemma loop_retry:
  "int attempt < ma \<Longrightarrow> refill w (Suc attempt) s local i = Inr (s1, local1, i1) \<Longrightarrow>
   attempt_failed (session_get w url (Suc attempt) (local1 ! i1)) \<Longrightarrow>
     fetch_loop w url ma s local i attempt lg =
       fetch_loop w url ma (handle_proxy_failure (Some (local1 ! i1)) s1) local1 (Suc i1)
         (Suc attempt) (lg @ [log_entry (Suc attempt) (local1 ! i1) s1 True])"
  by (subst fetch_loop.simps)
     (auto simp: Let_def log_entry_def attempt_failed_def dest: refill_Inr split: attempt_outcome.splits)

lemma fetch_loop_induct2 [case_names spent empty success retry]:
  assumes "\<And>s local i attempt lg. \<not> int attempt < ma \<Longrightarrow> P s local i attempt lg"
    and "\<And>s local i attempt lg s1.
           int attempt < ma \<Longrightarrow> refill w (Suc attempt) s local i = Inl s1 \<Longrightarrow> P s local i attempt lg"
    and "\<And>s local i attempt lg s1 local1 i1 r.
           int attempt < ma \<Longrightarrow> refill w (Suc attempt) s local i = Inr (s1, local1, i1) \<Longrightarrow>
           session_get w url (Suc attempt) (local1 ! i1) = Returns r \<Longrightarrow>
           \<not> is_retryable_status (status_code r) \<Longrightarrow> P s local i attempt lg"
    and "\<And>s local i attempt lg s1 local1 i1.
           int attempt < ma \<Longrightarrow> refill w (Suc attempt) s local i = Inr (s1, local1, i1) \<Longrightarrow>
           attempt_failed (session_get w url (Suc attempt) (local1 ! i1)) \<Longrightarrow>
           P (handle_proxy_failure (Some (local1 ! i1)) s1) local1 (Suc i1) (Suc attempt)
             (lg @ [log_entry (Suc attempt) (local1 ! i1) s1 True]) \<Longrightarrow>
           P s local i attempt lg"
  shows "P s local i attempt lg"
proof -
  have "P s local i attempt lg" if "n = nat (ma - int attempt)" for n s local i attempt lg
    using that
  proof (induction n arbitrary: s local i attempt lg rule: less_induct)
    case (less n s local i attempt lg)
    show ?case
    proof (cases "int attempt < ma")
      case False
      then show ?thesis by (rule assms(1))
    next
      case True
      show ?thesis
      proof (cases "refill w (Suc attempt) s local i")
        case (Inl s1)
        with True show ?thesis by (rule assms(2))
      next
        case (Inr t)
        then obtain s1 local1 i1 where t: "refill w (Suc attempt) s local i = Inr (s1, local1, i1)"
          by (cases t) auto
        show ?thesis
        proof (cases "attempt_failed (session_get w url (Suc attempt) (local1 ! i1))")
          case False
          then obtain r where "session_get w url (Suc attempt) (local1 ! i1) = Returns r"
            "\<not> is_retryable_status (status_code r)"
            by (auto simp: attempt_failed_def split: attempt_outcome.splits)
          with True t show ?thesis by (rule assms(3))
        next
          case failed: True
          have "nat (ma - int (Suc attempt)) < n"
            using True less.prems by simp
          then have "P (handle_proxy_failure (Some (local1 ! i1)) s1) local1 (Suc i1) (Suc attempt)
               (lg @ [log_entry (Suc attempt) (local1 ! i1) s1 True])"
            by (rule less.IH) simp
          with True t failed show ?thesis by (rule assms(4))
        qed
      qed
    qed
  qed
  then show ?thesis by simp
qed



lemma fetch_loop_Inr:
  "outcome (fetch_loop w url ma s local i attempt lg) = Inr resp \<Longrightarrow>
     \<not> is_retryable_status (status_code resp)
     \<and> int (attempts (fetch_loop w url ma s local i attempt lg)) \<le> ma
     \<and> attempt < attempts (fetch_loop w url ma s local i attempt lg)
     \<and> attempt_log (fetch_loop w url ma s local i attempt lg) \<noteq> []
     \<and> \<not> entry_failed (last (attempt_log (fetch_loop w url ma s local i attempt lg)))
     \<and> session_get w url (attempts (fetch_loop w url ma s local i attempt lg))
          (entry_proxy (last (attempt_log (fetch_loop w url ma s local i attempt lg)))) = Returns resp"
proof (induction s local i attempt lg rule: fetch_loop_induct2[where w=w and url=url and ma=ma])
  case (spent s local i attempt lg)
  then show ?case by (simp add: loop_done)
next
  case (empty s local i attempt lg s1)
  then show ?case by (simp add: loop_empty)
next
  case (success s local i attempt lg s1 local1 i1 r)
  then show ?case by (simp add: loop_success log_entry_def)
next
  case (retry s local i attempt lg s1 local1 i1)
  then show ?case by (simp add: loop_retry)
qed



lemma requests_get_loop:
  "\<exists>s0 local. requests_get w url ma s = fetch_loop w url ma s0 local 0 0 []"
  by (auto simp: requests_get_def Let_def)

lemma eval_retry_once:
  "requests_get world_retry_once ''u'' 3 initial_pool =
     \<lparr>outcome = Inr \<lparr>status_code = 200, body = ''ok''\<rparr>,
      pool_after = \<lparr>proxy_list = [''p1:8080''], proxy_failure_counts = [''p1:8080'' \<mapsto> 0]\<rparr>,
      attempts = 2,
      attempt_log = [log_entry 1 ''p1:8080'' \<lparr>proxy_list = [''p1:8080''], proxy_failure_counts = [''p1:8080'' \<mapsto> 0]\<rparr> True,
                     log_entry 2 ''p1:8080'' \<lparr>proxy_list = [''p1:8080''], proxy_failure_counts = [''p1:8080'' \<mapsto> 1]\<rparr> False]\<rparr>"
  by (simp add: requests_get_def world_retry_once_def initial_pool_def ensure_global_proxies_def
      get_proxies_def strip_def isspace_def snapshot_local_def dd_getitem_def SOFT_EXCLUDE_AFTER_def
      shuffle_def fetch_loop.simps[of _ _ _ _ _ _ 0] fetch_loop.simps[of _ _ _ _ _ _ "Suc 0"]
      refill_def is_retryable_status_def handle_proxy_failure_def handle_proxy_success_def Let_def
      PROXY_REMOVE_AFTER_def log_entry_def)

lemma requests_get_empty_pool:
  assumes "0 < ma" "proxy_list s = []" "get_proxies (read_lines w 0) = []"
    "get_proxies (read_lines w (Suc 0)) = []"
  shows "requests_get w url ma s =
     \<lparr>outcome = Inl (RequestException No_proxies_available), pool_after = s, attempts = 0,
      attempt_log = []\<rparr>"
proof -
  have e: "ensure_global_proxies (read_lines w t) s = s" if "get_proxies (read_lines w t) = []" for t
    using that by (simp add: ensure_global_proxies_def)
  have sn: "snapshot_local s = ([], s)"
    using assms(2) by (simp add: snapshot_local_def Let_def)
  have sh: "shuffle d ([] :: string list) = []" for d
    by (simp add: shuffle_eq_Nil)
  have "refill w (Suc 0) s [] 0 = Inl s"
    by (simp add: refill_def e assms sn)
  then have "fetch_loop w url ma s [] 0 0 [] =
     \<lparr>outcome = Inl (RequestException No_proxies_available), pool_after = s, attempts = 0,
      attempt_log = []\<rparr>"
    using assms(1) by (simp add: loop_empty)
  then show ?thesis
    by (simp add: requests_get_def e assms sn sh)
qed

lemma proxy_list_snapshot: "proxy_list (snd (snapshot_local s)) = proxy_list s"
  by (simp add: snd_snapshot_local)

lemma count_of_snapshot: "count_of (snd (snapshot_local s)) p = count_of s p"
  by (simp add: snd_snapshot_local count_of_def fst_dd_getitem_touched)

lemma proxy_list_stats: "proxy_list (snd (get_proxy_stats s)) = proxy_list s"
  by (simp add: get_proxy_stats_eq)

lemma count_of_stats: "count_of (snd (get_proxy_stats s)) p = count_of s p"
  by (simp add: get_proxy_stats_eq count_of_def fst_dd_getitem_touched)

lemma count_of_ensure: "count_of (ensure_global_proxies src s) p = count_of s p"
  by (simp add: ensure_global_proxies_def count_of_def Let_def)

lemma counts_ensure: "proxy_failure_counts (ensure_global_proxies src s) = proxy_failure_counts s"
  by (simp add: ensure_global_proxies_def Let_def)

lemma proxy_list_failure:
  "p \<noteq> [] \<Longrightarrow> proxy_list (handle_proxy_failure (Some p) s) =
     (if PROXY_REMOVE_AFTER \<le> count_of s p + 1 then remove1 p (proxy_list s) else proxy_list s)"
  by (simp add: handle_proxy_failure_def remove_failed_proxy_locked_def Let_def count_of_def
      remove1_idem)

lemma counts_failure:
  "p \<noteq> [] \<Longrightarrow> proxy_failure_counts (handle_proxy_failure (Some p) s) =
     (if PROXY_REMOVE_AFTER \<le> count_of s p + 1 then (proxy_failure_counts s)(p := None)
      else (proxy_failure_counts s)(p \<mapsto> count_of s p + 1))"
  by (auto simp: handle_proxy_failure_def remove_failed_proxy_locked_def Let_def count_of_def
      dd_getitem_def fun_eq_iff split: option.splits)

lemma count_of_failure:
  "p \<noteq> [] \<Longrightarrow> count_of (handle_proxy_failure (Some p) s) q =
     (if q = p then (if PROXY_REMOVE_AFTER \<le> count_of s p + 1 then 0 else count_of s p + 1)
      else count_of s q)"
  by (simp add: count_of_alt [of "handle_proxy_failure (Some p) s"] counts_failure)
     (simp add: count_of_alt)




lemma eval_no_file:
  "requests_get world_no_file ''u'' 3 initial_pool =
     \<lparr>outcome = Inl (RequestException No_proxies_available), pool_after = initial_pool,
      attempts = 0, attempt_log = []\<rparr>"
  by (rule requests_get_empty_pool)
     (simp_all add: world_no_file_def initial_pool_def get_proxies_def)

lemma bounded_invariant: "counts_bounded s \<Longrightarrow> pool_invariant s"
  by (fastforce simp: counts_bounded_def pool_invariant_def)

lemma bounded_initial: "counts_bounded initial_pool"
  by (simp add: counts_bounded_def initial_pool_def)

lemma bounded_failure: "counts_bounded s \<Longrightarrow> counts_bounded (handle_proxy_failure po s)"
proof (cases po)
  case None
  then show "counts_bounded s \<Longrightarrow> ?thesis" by (simp add: handle_proxy_failure_def)
next
  case (Some p)
  assume b: "counts_bounded s"
  show ?thesis
  proof (cases "p = []")
    case True
    with Some b show ?thesis by (simp add: handle_proxy_failure_def)
  next
    case False
    with b show ?thesis
      unfolding Some counts_bounded_def by (simp add: counts_failure)
  qed
qed

lemma bounded_success: "counts_bounded s \<Longrightarrow> counts_bounded (handle_proxy_success po s)"
  by (auto simp: counts_bounded_def handle_proxy_success_def PROXY_REMOVE_AFTER_def
      split: option.splits if_splits)

lemma bounded_ensure: "counts_bounded s \<Longrightarrow> counts_bounded (ensure_global_proxies src s)"
  by (simp add: counts_bounded_def counts_ensure)

lemma bounded_touched:
  "counts_bounded s \<Longrightarrow> counts_bounded (s\<lparr>proxy_failure_counts := touched ps (proxy_failure_counts s)\<rparr>)"
  by (auto simp: counts_bounded_def touched_def PROXY_REMOVE_AFTER_def split: if_splits)

lemma bounded_snapshot: "counts_bounded s \<Longrightarrow> counts_bounded (snd (snapshot_local s))"
  by (simp add: snd_snapshot_local bounded_touched)

lemma bounded_stats: "counts_bounded s \<Longrightarrow> counts_bounded (snd (get_proxy_stats s))"
  by (simp add: get_proxy_stats_eq bounded_touched)

lemma bounded_refill:
  "counts_bounded s \<Longrightarrow> refill w t s local i = Inr (s1, local1, i1) \<Longrightarrow> counts_bounded s1"
  by (auto simp: refill_def Let_def bounded_snapshot bounded_ensure split: if_splits)

lemma bounded_fetch_loop:
  "counts_bounded s \<Longrightarrow> counts_bounded (pool_after (fetch_loop w url ma s local i attempt lg))"
proof (induction s local i attempt lg rule: fetch_loop_induct2[where w=w and url=url and ma=ma])
  case (spent s local i attempt lg)
  then show ?case by (simp add: loop_done bounded_stats)
next
  case (empty s local i attempt lg s1)
  then show ?case by (auto simp: loop_empty dest: refill_Inl)
next
  case (success s local i attempt lg s1 local1 i1 r)
  then show ?case by (auto simp: loop_success intro: bounded_success dest: bounded_refill)
next
  case (retry s local i attempt lg s1 local1 i1)
  then show ?case by (auto simp: loop_retry intro: bounded_failure dest: bounded_refill)
qed

lemma bounded_requests_get:
  "counts_bounded s \<Longrightarrow> counts_bounded (pool_after (requests_get w url ma s))"
  by (simp add: requests_get_def Let_def bounded_fetch_loop bounded_snapshot bounded_ensure)

lemma bounded_apply_op: "counts_bounded s \<Longrightarrow> counts_bounded (apply_op op s)"
  by (cases op)
     (simp_all add: bounded_failure bounded_success bounded_ensure bounded_snapshot bounded_stats
       bounded_requests_get)

lemma bounded_run_ops: "counts_bounded s \<Longrightarrow> counts_bounded (run_ops ops s)"
  by (induction ops arbitrary: s) (simp_all add: bounded_apply_op)

lemma pool_invariant_iff:
  "pool_invariant s \<longleftrightarrow> (\<forall>p \<in> set (proxy_list s). count_of s p < PROXY_REMOVE_AFTER)"
proof
  assume inv: "pool_invariant s"
  show "\<forall>p \<in> set (proxy_list s). count_of s p < PROXY_REMOVE_AFTER"
  proof
    fix p assume p: "p \<in> set (proxy_list s)"
    show "count_of s p < PROXY_REMOVE_AFTER"
    proof (cases "proxy_failure_counts s p")
      case None
      then show ?thesis by (simp add: count_of_alt PROXY_REMOVE_AFTER_def)
    next
      case (Some c)
      with inv p have "\<not> PROXY_REMOVE_AFTER \<le> c"
        unfolding pool_invariant_def by blast
      with Some show ?thesis by (simp add: count_of_alt)
    qed
  qed
next
  assume "\<forall>p \<in> set (proxy_list s). count_of s p < PROXY_REMOVE_AFTER"
  then show "pool_invariant s"
    by (fastforce simp: pool_invariant_def count_of_alt)
qed

lemma count_of_failure_None: "count_of (handle_proxy_failure None s) q = count_of s q"
  by (simp add: handle_proxy_failure_def)










lemma duplicate_survives_removal:
  "handle_proxy_failure (Some ''p1:8080'') (handle_proxy_failure (Some ''p1:8080'') pool_twice) =
     \<lparr>proxy_list = [''p1:8080''], proxy_failure_counts = Map.empty\<rparr>"
  by (simp add: pool_twice_def handle_proxy_failure_def remove_failed_proxy_locked_def
      dd_getitem_def Let_def PROXY_REMOVE_AFTER_def)

lemma count_of_pool_two: "count_of pool_two q = 0"
  by (simp add: pool_two_def count_of_alt)

lemma proxy_list_pool_two: "proxy_list pool_two = [''p1:8080'', ''p2:8080'']"
  by (simp add: pool_two_def)

lemma shuffle_two_cases:
  "\<exists>a b. shuffle d [x, y] = [a, b] \<and> ((a = x \<and> b = y) \<or> (a = y \<and> b = x))"
  by (simp add: shuffle_two)

lemma two_failing_run:
  assumes L: "proxy_list s = [''p1:8080'', ''p2:8080'']"
    and z1: "count_of s ''p1:8080'' = 0" and z2: "count_of s ''p2:8080'' = 0"
    and R: "\<forall>n p. session_get w url n p = Raises"
  shows "\<exists>a b c s0 s1 s2 s3.
      ((a = ''p1:8080'' \<and> b = ''p2:8080'') \<or> (a = ''p2:8080'' \<and> b = ''p1:8080''))
      \<and> (c = ''p1:8080'' \<or> c = ''p2:8080'')
      \<and> s0 = snd (snapshot_local s)
      \<and> s1 = handle_proxy_failure (Some a) s0
      \<and> s2 = snd (snapshot_local (handle_proxy_failure (Some b) s1))
      \<and> s3 = handle_proxy_failure (Some c) s2
      \<and> requests_get w url 3 s =
          \<lparr>outcome = Inl (RequestException (Failed_after 3 (fst (get_proxy_stats s3)))),
           pool_after = snd (get_proxy_stats s3), attempts = 3,
           attempt_log = [log_entry 1 a s0 True, log_entry 2 b s1 True, log_entry 3 c s2 True]\<rparr>"
proof -
  define s0 where "s0 = snd (snapshot_local s)"
  obtain a b where ab: "shuffle (randbelow w 0) [''p1:8080'', ''p2:8080''] = [a, b]"
    "(a = ''p1:8080'' \<and> b = ''p2:8080'') \<or> (a = ''p2:8080'' \<and> b = ''p1:8080'')"
    using shuffle_two_cases [of "randbelow w 0" "''p1:8080''" "''p2:8080''"] by blast
  obtain c d where cd: "shuffle (randbelow w 3) [''p1:8080'', ''p2:8080''] = [c, d]"
    "c = ''p1:8080'' \<or> c = ''p2:8080''"
    using shuffle_two_cases [of "randbelow w 3" "''p1:8080''" "''p2:8080''"] by blast
  define s1 where "s1 = handle_proxy_failure (Some a) s0"
  define t2 where "t2 = handle_proxy_failure (Some b) s1"
  define s2 where "s2 = snd (snapshot_local t2)"
  define s3 where "s3 = handle_proxy_failure (Some c) s2"
  have ne: "a \<noteq> []" "b \<noteq> []" "a \<noteq> b"
    using ab(2) by auto
  have fail: "attempt_failed (session_get w url n p)" for n p
    using R by (simp add: attempt_failed_def)
  have start: "requests_get w url 3 s = fetch_loop w url 3 s0 [a, b] 0 0 []"
    using L z1 z2 ab(1)
    by (simp add: requests_get_def Let_def ensure_nonempty fst_snapshot_local s0_def
        SOFT_EXCLUDE_AFTER_def)
  have l0: "proxy_list s0 = [''p1:8080'', ''p2:8080'']" and c0: "count_of s0 a = 0" "count_of s0 b = 0"
    using L z1 z2 ab(2) by (auto simp: s0_def proxy_list_snapshot count_of_snapshot)
  have l1: "proxy_list s1 = [''p1:8080'', ''p2:8080'']" and c1: "count_of s1 a = 1" "count_of s1 b = 0"
    using ne l0 c0 by (simp_all add: s1_def proxy_list_failure count_of_failure PROXY_REMOVE_AFTER_def)
  have l2: "proxy_list t2 = [''p1:8080'', ''p2:8080'']" and c2: "count_of t2 a = 1" "count_of t2 b = 1"
    using ne l1 c1 by (simp_all add: t2_def proxy_list_failure count_of_failure PROXY_REMOVE_AFTER_def)
  have snap2: "fst (snapshot_local t2) = [''p1:8080'', ''p2:8080'']"
    using l2 c2 ab(2) by (auto simp: fst_snapshot_local SOFT_EXCLUDE_AFTER_def)
  have r1: "refill w (Suc 0) s0 [a, b] 0 = Inr (s0, [a, b], 0)"
    by (simp add: refill_def)
  have r2: "refill w (Suc (Suc 0)) s1 [a, b] (Suc 0) = Inr (s1, [a, b], Suc 0)"
    by (simp add: refill_def)
  have r3: "refill w (Suc (Suc (Suc 0))) t2 [a, b] (Suc (Suc 0)) = Inr (s2, [c, d], 0)"
    using l2 snap2 cd(1) by (simp add: refill_def ensure_nonempty s2_def numeral_3_eq_3)
  have step1: "fetch_loop w url 3 s0 [a, b] 0 0 [] =
      fetch_loop w url 3 s1 [a, b] (Suc 0) (Suc 0) [log_entry (Suc 0) a s0 True]"
    using loop_retry [of 0 3 w s0 "[a, b]" 0 s0 "[a, b]" 0 url "[]"] r1 fail
    by (simp add: s1_def)
  have step2: "fetch_loop w url 3 s1 [a, b] (Suc 0) (Suc 0) [log_entry (Suc 0) a s0 True] =
      fetch_loop w url 3 t2 [a, b] (Suc (Suc 0)) (Suc (Suc 0))
        [log_entry (Suc 0) a s0 True, log_entry (Suc (Suc 0)) b s1 True]"
    using loop_retry [of "Suc 0" 3 w s1 "[a, b]" "Suc 0" s1 "[a, b]" "Suc 0" url
        "[log_entry (Suc 0) a s0 True]"] r2 fail
    by (simp add: t2_def)
  have step3: "fetch_loop w url 3 t2 [a, b] (Suc (Suc 0)) (Suc (Suc 0))
        [log_entry (Suc 0) a s0 True, log_entry (Suc (Suc 0)) b s1 True] =
      fetch_loop w url 3 s3 [c, d] (Suc 0) (Suc (Suc (Suc 0)))
        [log_entry (Suc 0) a s0 True, log_entry (Suc (Suc 0)) b s1 True,
         log_entry (Suc (Suc (Suc 0))) c s2 True]"
    using loop_retry [of "Suc (Suc 0)" 3 w t2 "[a, b]" "Suc (Suc 0)" s2 "[c, d]" 0 url
        "[log_entry (Suc 0) a s0 True, log_entry (Suc (Suc 0)) b s1 True]"] r3 fail
    by (simp add: s3_def)
  have step4: "fetch_loop w url 3 s3 [c, d] (Suc 0) (Suc (Suc (Suc 0)))
        [log_entry (Suc 0) a s0 True, log_entry (Suc (Suc 0)) b s1 True,
         log_entry (Suc (Suc (Suc 0))) c s2 True] =
      \<lparr>outcome = Inl (RequestException (Failed_after 3 (fst (get_proxy_stats s3)))),
       pool_after = snd (get_proxy_stats s3), attempts = 3,
       attempt_log = [log_entry 1 a s0 True, log_entry 2 b s1 True, log_entry 3 c s2 True]\<rparr>"
    by (simp add: loop_done numeral_3_eq_3 numeral_2_eq_2)
  have "requests_get w url 3 s =
      \<lparr>outcome = Inl (RequestException (Failed_after 3 (fst (get_proxy_stats s3)))),
       pool_after = snd (get_proxy_stats s3), attempts = 3,
       attempt_log = [log_entry 1 a s0 True, log_entry 2 b s1 True, log_entry 3 c s2 True]\<rparr>"
    by (simp only: start step1 step2 step3 step4)
  with ab(2) cd(2) show ?thesis
    unfolding s0_def s1_def s2_def t2_def s3_def by blast
qed

lemma eval_two_failing:
  "map entry_proxy (attempt_log (requests_get world_all_raise ''u'' 3 pool_two)) =
     [''p2:8080'', ''p1:8080'', ''p2:8080'']
   \<and> proxy_list (pool_after (requests_get world_all_raise ''u'' 3 pool_two)) = [''p1:8080'']
   \<and> proxy_failure_counts (pool_after (requests_get world_all_raise ''u'' 3 pool_two)) ''p1:8080'' = Some 1
   \<and> proxy_failure_counts (pool_after (requests_get world_all_raise ''u'' 3 pool_two)) ''p2:8080'' = None"
  by (simp add: requests_get_def world_all_raise_def pool_two_def ensure_global_proxies_def
      snapshot_local_def dd_getitem_def SOFT_EXCLUDE_AFTER_def get_proxy_stats_def
      shuffle_def fetch_loop.simps[of _ _ _ _ _ _ 0] fetch_loop.simps[of _ _ _ _ _ _ "Suc 0"]
      fetch_loop.simps[of _ _ _ _ _ _ "Suc (Suc 0)"] fetch_loop.simps[of _ _ _ _ _ _ "Suc (Suc (Suc 0))"]
      refill_def handle_proxy_failure_def remove_failed_proxy_locked_def Let_def
      PROXY_REMOVE_AFTER_def)




lemma fetch_loop_proxy_attempted:
  "outcome (fetch_loop w url ma s local i attempt lg) = Inr resp \<Longrightarrow>
     entry_attempt (last (attempt_log (fetch_loop w url ma s local i attempt lg))) =
       attempts (fetch_loop w url ma s local i attempt lg)"
proof (induction s local i attempt lg rule: fetch_loop_induct2[where w=w and url=url and ma=ma])
  case (spent s local i attempt lg)
  then show ?case by (simp add: loop_done)
next
  case (empty s local i attempt lg s1)
  then show ?case by (simp add: loop_empty)
next
  case (success s local i attempt lg s1 local1 i1 r)
  then show ?case by (simp add: loop_success log_entry_def)
next
  case (retry s local i attempt lg s1 local1 i1)
  then show ?case by (simp add: loop_retry)
qed

section \<open>The claims\<close>

text \<open>
  C6. For every input file, \<^verbatim>\<open>_get_proxies\<close> returns exactly the lines that, after trimming
  whitespace, are non-empty and contain a colon, each in its trimmed form (the code tests
  the colon on the untrimmed line, which is the same test since a colon is not
  whitespace); a source that cannot be read yields the empty list; and the lines
  \<^verbatim>\<open>"not-a-proxy"\<close>, \<^verbatim>\<open>""\<close>, \<^verbatim>\<open>"1.2.3.4:8080"\<close> load as the single address
  \<^verbatim>\<open>1.2.3.4:8080\<close>.
\<close>

theorem C6_get_proxies:
  "get_proxies src = load_spec src
   \<and> get_proxies None = []
   \<and> get_proxies (Some [''not-a-proxy'', '''', ''1.2.3.4:8080'']) = [''1.2.3.4:8080'']"
proof -
  have q: "qualifies = (\<lambda>ln. strip ln \<noteq> [] \<and> CHR '':'' \<in> set ln)"
    by (simp add: fun_eq_iff qualifies_def colon_in_strip)
  have "get_proxies src = load_spec src"
    by (cases src) (simp_all add: get_proxies_def load_spec_def q)
  moreover have "get_proxies None = []"
    by (simp add: get_proxies_def)
  moreover have "get_proxies (Some [''not-a-proxy'', '''', ''1.2.3.4:8080'']) = [''1.2.3.4:8080'']"
    by (simp add: get_proxies_def strip_def isspace_def)
  ultimately show ?thesis by simp
qed

text \<open>
  C4. \<^verbatim>\<open>_snapshot_local\<close> returns the addresses of the pool whose failure count is below
  \<^verbatim>\<open>SOFT_EXCLUDE_AFTER\<close>, in the order of the list, when there is one; when every address
  of a non-empty pool has a count of at least \<^verbatim>\<open>SOFT_EXCLUDE_AFTER\<close>, it returns the full
  address list, which is not empty.
\<close>

theorem C4_snapshot_local:
  "(let below = filter (\<lambda>p. count_of s p < SOFT_EXCLUDE_AFTER) (proxy_list s)
    in fst (snapshot_local s) = (if below \<noteq> [] then below else proxy_list s))
   \<and> (proxy_list s \<noteq> [] \<and> (\<forall>p \<in> set (proxy_list s). count_of s p \<ge> SOFT_EXCLUDE_AFTER)
        \<longrightarrow> fst (snapshot_local s) = proxy_list s \<and> fst (snapshot_local s) \<noteq> [])"
proof -
  have "filter (\<lambda>p. count_of s p < SOFT_EXCLUDE_AFTER) (proxy_list s) = []"
    if "\<forall>p \<in> set (proxy_list s). count_of s p \<ge> SOFT_EXCLUDE_AFTER"
    using that by (simp add: filter_empty_conv not_less)
  then show ?thesis
    by (simp add: fst_snapshot_local Let_def)
qed

theorem C4_snapshot_local_witness:
  "proxy_list pool_a = [''p1:8080'', ''p2:8080'']
   \<and> count_of pool_a ''p1:8080'' = 1 \<and> count_of pool_a ''p2:8080'' = 1 \<and> SOFT_EXCLUDE_AFTER = 1
   \<and> fst (snapshot_local pool_a) = [''p1:8080'', ''p2:8080'']"
  using C4_snapshot_local [of pool_a]
  by (simp add: pool_a_def count_of_alt SOFT_EXCLUDE_AFTER_def)

text \<open>
  C9. For every address (a non-empty string) and every prior failure count,
  \<^verbatim>\<open>_handle_proxy_success\<close> sets the failure count of the address to 0, which is below
  \<^verbatim>\<open>SOFT_EXCLUDE_AFTER\<close>, and leaves the address list alone, so an address of the list is
  in the next usable snapshot.
\<close>

theorem C9_handle_proxy_success:
  "p \<noteq> [] \<Longrightarrow>
     count_of (handle_proxy_success (Some p) s) p = 0
     \<and> count_of (handle_proxy_success (Some p) s) p < SOFT_EXCLUDE_AFTER
     \<and> proxy_list (handle_proxy_success (Some p) s) = proxy_list s
     \<and> (p \<in> set (proxy_list s) \<longrightarrow> p \<in> set (fst (snapshot_local (handle_proxy_success (Some p) s))))"
  by (auto simp: handle_proxy_success_def count_of_alt fst_snapshot_local SOFT_EXCLUDE_AFTER_def
      filter_empty_conv)

theorem C9_handle_proxy_success_witness:
  "''p1:8080'' \<noteq> [] \<and> count_of pool_a ''p1:8080'' = 1
   \<and> ''p1:8080'' \<in> set (proxy_list pool_a)
   \<and> count_of (handle_proxy_success (Some ''p1:8080'') pool_a) ''p1:8080'' = 0
   \<and> fst (snapshot_local (handle_proxy_success (Some ''p1:8080'') pool_a)) = [''p1:8080'']"
  using C9_handle_proxy_success [of "''p1:8080''" pool_a]
  by (simp add: pool_a_def count_of_alt handle_proxy_success_def fst_snapshot_local SOFT_EXCLUDE_AFTER_def)

text \<open>
  C8, as stated: \<^verbatim>\<open>get_proxy_stats\<close> leaves the failure-count dictionary unchanged. It does
  not: for the pool that holds \<^verbatim>\<open>p1:8080\<close> and an empty dictionary, the read
  \<^verbatim>\<open>proxy_failure_counts[p]\<close> inserts the entry 0.
\<close>

theorem C8_counterexample:
  "proxy_failure_counts (snd (get_proxy_stats pool_b)) \<noteq> proxy_failure_counts pool_b"
proof
  assume "proxy_failure_counts (snd (get_proxy_stats pool_b)) = proxy_failure_counts pool_b"
  then have "proxy_failure_counts (snd (get_proxy_stats pool_b)) ''p1:8080'' = proxy_failure_counts pool_b ''p1:8080''"
    by simp
  then show False
    by (simp add: pool_b_def get_proxy_stats_def dd_getitem_def Let_def)
qed

text \<open>
  C8, amended. \<^verbatim>\<open>get_proxy_stats\<close> leaves the address list unchanged and the failure count
  of every address unchanged (an address without an entry counts 0); in the dictionary
  each address of the list that had no entry gets the entry 0 and nothing else changes.
  It returns the length of the list, the number of listed addresses whose count is below
  \<^verbatim>\<open>PROXY_REMOVE_AFTER\<close>, and a copy of the dictionary as the call leaves it.
\<close>

theorem C8_get_proxy_stats:
  "proxy_list (snd (get_proxy_stats s)) = proxy_list s
   \<and> (\<forall>p. count_of (snd (get_proxy_stats s)) p = count_of s p)
   \<and> (\<forall>p. proxy_failure_counts (snd (get_proxy_stats s)) p =
          (if p \<in> set (proxy_list s) \<and> proxy_failure_counts s p = None then Some 0
           else proxy_failure_counts s p))
   \<and> total_proxies (fst (get_proxy_stats s)) = int (length (proxy_list s))
   \<and> healthy_proxies (fst (get_proxy_stats s)) =
       int (length (filter (\<lambda>p. count_of s p < PROXY_REMOVE_AFTER) (proxy_list s)))
   \<and> failure_counts (fst (get_proxy_stats s)) = proxy_failure_counts (snd (get_proxy_stats s))"
  by (simp add: get_proxy_stats_eq count_of_def fst_dd_getitem_touched) (simp add: touched_def)

theorem C8_get_proxy_stats_witness:
  "proxy_list (snd (get_proxy_stats pool_b)) = [''p1:8080'']
   \<and> proxy_failure_counts pool_b ''p1:8080'' = None
   \<and> proxy_failure_counts (snd (get_proxy_stats pool_b)) ''p1:8080'' = Some 0
   \<and> total_proxies (fst (get_proxy_stats pool_b)) = 1
   \<and> healthy_proxies (fst (get_proxy_stats pool_b)) = 1"
  using C8_get_proxy_stats [of pool_b]
  by (simp add: pool_b_def count_of_alt PROXY_REMOVE_AFTER_def)

text \<open>
  C1. For every URL, every pool and every outcome of the attempts, \<^verbatim>\<open>requests_get\<close> never
  returns a response whose status is retryable: a response it returns has a status outside
  the set 301, 302, 401, 403, 407, 429, 500, 502, 503, 504 and is the one the last attempt
  received; otherwise it raises \<^verbatim>\<open>RequestException\<close>.
\<close>

theorem C1_requests_get_never_retryable:
  "(\<forall>resp. outcome (requests_get w url ma s) = Inr resp \<longrightarrow>
       \<not> is_retryable_status (status_code resp)
       \<and> session_get w url (attempts (requests_get w url ma s))
            (entry_proxy (last (attempt_log (requests_get w url ma s)))) = Returns resp)
   \<and> (\<forall>e. outcome (requests_get w url ma s) = Inl e \<longrightarrow> (\<exists>m. e = RequestException m))"
proof -
  obtain s0 local where r: "requests_get w url ma s = fetch_loop w url ma s0 local 0 0 []"
    using requests_get_loop by blast
  have "\<exists>m. e = RequestException m" if "outcome (requests_get w url ma s) = Inl e" for e
    using that fetch_loop_no_IndexError [of w url ma s0 local 0 0 "[]"] r by (cases e) auto
  then show ?thesis
    using fetch_loop_Inr [of w url ma s0 local 0 0 "[]"] r by auto
qed

theorem C1_requests_get_never_retryable_witness:
  "outcome (requests_get world_retry_once ''u'' 3 initial_pool) = Inr \<lparr>status_code = 200, body = ''ok''\<rparr>
   \<and> \<not> is_retryable_status 200 \<and> is_retryable_status 429
   \<and> session_get world_retry_once ''u'' 1 ''p1:8080'' = Returns \<lparr>status_code = 429, body = ''''\<rparr>
   \<and> session_get world_retry_once ''u'' 2 ''p1:8080'' = Returns \<lparr>status_code = 200, body = ''ok''\<rparr>"
  using C1_requests_get_never_retryable [of world_retry_once "''u''" 3 initial_pool]
  by (simp add: eval_retry_once) (simp add: world_retry_once_def is_retryable_status_def)



text \<open>
  C10. For \<^verbatim>\<open>max_attempts\<close> at most 0, \<^verbatim>\<open>requests_get\<close> raises \<^verbatim>\<open>Failed after ...\<close> at once:
  the attempt counter is 0, the log of attempts is empty, the pool is the one that lazy
  seeding, the snapshot and the statistics leave, so every failure count is as before and
  no address is removed, whatever the URL and the pool.
\<close>

theorem C10_requests_get_no_budget:
  "ma \<le> 0 \<Longrightarrow>
     requests_get w url ma s =
       \<lparr>outcome = Inl (RequestException (Failed_after ma
           (fst (get_proxy_stats (snd (snapshot_local (ensure_global_proxies (read_lines w 0) s))))))),
        pool_after = snd (get_proxy_stats (snd (snapshot_local (ensure_global_proxies (read_lines w 0) s)))),
        attempts = 0, attempt_log = []\<rparr>
     \<and> (\<forall>p. count_of (pool_after (requests_get w url ma s)) p = count_of s p)
     \<and> proxy_list (pool_after (requests_get w url ma s)) =
         proxy_list (ensure_global_proxies (read_lines w 0) s)
     \<and> (proxy_list s \<noteq> [] \<longrightarrow> proxy_list (pool_after (requests_get w url ma s)) = proxy_list s)"
proof -
  assume ma: "ma \<le> 0"
  have r: "requests_get w url ma s =
       \<lparr>outcome = Inl (RequestException (Failed_after ma
           (fst (get_proxy_stats (snd (snapshot_local (ensure_global_proxies (read_lines w 0) s))))))),
        pool_after = snd (get_proxy_stats (snd (snapshot_local (ensure_global_proxies (read_lines w 0) s)))),
        attempts = 0, attempt_log = []\<rparr>"
    using ma by (simp add: requests_get_def Let_def loop_done)
  have c: "count_of (ensure_global_proxies src s) p = count_of s p" for src p
    by (simp add: ensure_global_proxies_def count_of_def Let_def)
  show ?thesis
    by (simp add: r get_proxy_stats_eq snd_snapshot_local count_of_def fst_dd_getitem_touched
        c [unfolded count_of_def] ensure_nonempty)
qed

theorem C10_requests_get_no_budget_witness:
  "(0::int) \<le> 0
   \<and> outcome (requests_get world_all_raise ''u'' 0 pool_a) =
       Inl (RequestException (Failed_after 0
         \<lparr>total_proxies = 2, healthy_proxies = 2,
          failure_counts = [''p1:8080'' \<mapsto> 1, ''p2:8080'' \<mapsto> 1]\<rparr>))
   \<and> attempts (requests_get world_all_raise ''u'' 0 pool_a) = 0
   \<and> attempt_log (requests_get world_all_raise ''u'' 0 pool_a) = []
   \<and> count_of (pool_after (requests_get world_all_raise ''u'' 0 pool_a)) ''p1:8080'' = 1
   \<and> proxy_list (pool_after (requests_get world_all_raise ''u'' 0 pool_a)) = [''p1:8080'', ''p2:8080'']"
  using C10_requests_get_no_budget [of 0 world_all_raise "''u''" pool_a]
  apply (simp add: get_proxy_stats_eq snd_snapshot_local count_of_alt ensure_nonempty pool_a_def
      PROXY_REMOVE_AFTER_def)
  apply (simp add: touched_def fun_eq_iff)
  done

text \<open>
  C7. Starting from the empty pool, after every sequence of operations (recording a
  success or a failure for any argument, lazy seeding from any file content, the snapshot,
  the statistics, and whole calls of \<^verbatim>\<open>requests_get\<close> in any world), no address that has
  an entry of at least \<^verbatim>\<open>PROXY_REMOVE_AFTER\<close> in the failure-count dictionary is in the
  address list.
\<close>

theorem C7_pool_invariant:
  "pool_invariant (run_ops ops initial_pool)"
  by (intro bounded_invariant bounded_run_ops bounded_initial)

theorem C7_pool_invariant_witness:
  "proxy_list (run_ops [Lazy_seed (Some [''p1:8080'', ''p2:8080'']), Snapshot,
       Record_failure (Some ''p1:8080''), Record_failure (Some ''p2:8080''),
       Record_failure (Some ''p1:8080''), Stats] initial_pool) = [''p2:8080'']
   \<and> proxy_failure_counts (run_ops [Lazy_seed (Some [''p1:8080'', ''p2:8080'']), Snapshot,
       Record_failure (Some ''p1:8080''), Record_failure (Some ''p2:8080''),
       Record_failure (Some ''p1:8080''), Stats] initial_pool) ''p1:8080'' = None
   \<and> proxy_failure_counts (run_ops [Lazy_seed (Some [''p1:8080'', ''p2:8080'']), Snapshot,
       Record_failure (Some ''p1:8080''), Record_failure (Some ''p2:8080''),
       Record_failure (Some ''p1:8080''), Stats] initial_pool) ''p2:8080'' = Some 1"
  using C7_pool_invariant [of "[Lazy_seed (Some [''p1:8080'', ''p2:8080'']), Snapshot,
       Record_failure (Some ''p1:8080''), Record_failure (Some ''p2:8080''),
       Record_failure (Some ''p1:8080''), Stats]"]
  by (simp add: initial_pool_def ensure_global_proxies_def get_proxies_def strip_def isspace_def
      snd_snapshot_local get_proxy_stats_eq touched_def proxy_list_failure counts_failure
      count_of_alt PROXY_REMOVE_AFTER_def)




text \<open>
  C5. The pool holds \<^verbatim>\<open>p1:8080\<close> and \<^verbatim>\<open>p2:8080\<close>, both at count 0, every attempt raises a
  connection error and \<^verbatim>\<open>max_attempts\<close> is 3. For every run of the shuffles,
  \<^verbatim>\<open>requests_get\<close> raises \<^verbatim>\<open>Failed after 3 attempts\<close> after exactly 3 attempts, each of which
  recorded a failure; the first two attempts went to the two proxies, one each, so that
  at the third attempt both stand at count 1 and both are still listed; the third attempt
  takes its proxy to the threshold and removes it, and the pool is left with exactly one
  address, at count 1.
\<close>

theorem C5_two_failing_proxies:
  "proxy_list s = [''p1:8080'', ''p2:8080''] \<Longrightarrow>
   count_of s ''p1:8080'' = 0 \<Longrightarrow> count_of s ''p2:8080'' = 0 \<Longrightarrow>
   \<forall>n p. session_get w url n p = Raises \<Longrightarrow>
     (\<exists>st. outcome (requests_get w url 3 s) = Inl (RequestException (Failed_after 3 st))
           \<and> total_proxies st = 1 \<and> healthy_proxies st = 1)
     \<and> attempts (requests_get w url 3 s) = 3
     \<and> length (attempt_log (requests_get w url 3 s)) = 3
     \<and> (\<forall>e \<in> set (attempt_log (requests_get w url 3 s)). entry_failed e)
     \<and> mset (map entry_proxy (take 2 (attempt_log (requests_get w url 3 s)))) =
         {#''p1:8080'', ''p2:8080''#}
     \<and> entry_proxy (attempt_log (requests_get w url 3 s) ! 2) \<in> {''p1:8080'', ''p2:8080''}
     \<and> proxy_list (entry_pool (attempt_log (requests_get w url 3 s) ! 2)) =
         [''p1:8080'', ''p2:8080'']
     \<and> count_of (entry_pool (attempt_log (requests_get w url 3 s) ! 2)) ''p1:8080'' = 1
     \<and> count_of (entry_pool (attempt_log (requests_get w url 3 s) ! 2)) ''p2:8080'' = 1
     \<and> proxy_list (pool_after (requests_get w url 3 s)) =
         remove1 (entry_proxy (attempt_log (requests_get w url 3 s) ! 2)) [''p1:8080'', ''p2:8080'']
     \<and> length (proxy_list (pool_after (requests_get w url 3 s))) = 1
     \<and> (\<forall>p \<in> set (proxy_list (pool_after (requests_get w url 3 s))).
           count_of (pool_after (requests_get w url 3 s)) p = 1)"
proof -
  assume L: "proxy_list s = [''p1:8080'', ''p2:8080'']"
    and z1: "count_of s ''p1:8080'' = 0" and z2: "count_of s ''p2:8080'' = 0"
    and R: "\<forall>n p. session_get w url n p = Raises"
  obtain a b c s0 s1 s2 s3 where
    ab: "(a = ''p1:8080'' \<and> b = ''p2:8080'') \<or> (a = ''p2:8080'' \<and> b = ''p1:8080'')"
    and c: "c = ''p1:8080'' \<or> c = ''p2:8080''"
    and s0: "s0 = snd (snapshot_local s)"
    and s1: "s1 = handle_proxy_failure (Some a) s0"
    and s2: "s2 = snd (snapshot_local (handle_proxy_failure (Some b) s1))"
    and s3: "s3 = handle_proxy_failure (Some c) s2"
    and run: "requests_get w url 3 s =
          \<lparr>outcome = Inl (RequestException (Failed_after 3 (fst (get_proxy_stats s3)))),
           pool_after = snd (get_proxy_stats s3), attempts = 3,
           attempt_log = [log_entry 1 a s0 True, log_entry 2 b s1 True, log_entry 3 c s2 True]\<rparr>"
    using two_failing_run [OF L z1 z2 R] by blast
  have ne: "a \<noteq> []" "b \<noteq> []" "a \<noteq> b" "c \<noteq> []"
    using ab c by auto
  have l0: "proxy_list s0 = [''p1:8080'', ''p2:8080'']" and c0: "count_of s0 a = 0" "count_of s0 b = 0"
    using L z1 z2 ab by (auto simp: s0 proxy_list_snapshot count_of_snapshot)
  have l1: "proxy_list s1 = [''p1:8080'', ''p2:8080'']" and c1: "count_of s1 a = 1" "count_of s1 b = 0"
    using ne l0 c0 by (simp_all add: s1 proxy_list_failure count_of_failure PROXY_REMOVE_AFTER_def)
  have l2: "proxy_list s2 = [''p1:8080'', ''p2:8080'']" and c2: "count_of s2 a = 1" "count_of s2 b = 1"
    using ne l1 c1
    by (simp_all add: s2 proxy_list_snapshot count_of_snapshot proxy_list_failure count_of_failure
        PROXY_REMOVE_AFTER_def)
  have c2': "count_of s2 ''p1:8080'' = 1" "count_of s2 ''p2:8080'' = 1" "count_of s2 c = 1"
    using ab c c2 by auto
  have l3: "proxy_list s3 = remove1 c [''p1:8080'', ''p2:8080'']"
    using ne l2 c2' by (simp add: s3 proxy_list_failure PROXY_REMOVE_AFTER_def)
  have c3: "count_of s3 q = (if q = c then 0 else count_of s2 q)" for q
    using ne c2' by (simp add: s3 count_of_failure PROXY_REMOVE_AFTER_def)
  have len3: "length (proxy_list s3) = 1"
    using c by (auto simp: l3)
  have ones: "\<forall>p \<in> set (proxy_list s3). count_of s3 p = 1"
    using c c2' by (auto simp: l3 c3)
  have healthy: "healthy_proxies (fst (get_proxy_stats s3)) = 1"
  proof -
    have "filter (\<lambda>p. count_of s3 p < PROXY_REMOVE_AFTER) (proxy_list s3) = proxy_list s3"
      using ones by (simp add: PROXY_REMOVE_AFTER_def)
    then show ?thesis
      by (simp add: get_proxy_stats_eq len3)
  qed
  have total: "total_proxies (fst (get_proxy_stats s3)) = 1"
    by (simp add: get_proxy_stats_eq len3)
  have first_two: "mset (map entry_proxy (take 2 (attempt_log (requests_get w url 3 s)))) =
         {#''p1:8080'', ''p2:8080''#}"
    using ab by (auto simp: run log_entry_def numeral_2_eq_2)
  have third: "attempt_log (requests_get w url 3 s) ! 2 = log_entry 3 c s2 True"
    by (simp add: run numeral_2_eq_2)
  have failed: "\<forall>e \<in> set (attempt_log (requests_get w url 3 s)). entry_failed e"
    by (simp add: run log_entry_def)
  have after: "proxy_list (pool_after (requests_get w url 3 s)) = proxy_list s3"
    "\<And>q. count_of (pool_after (requests_get w url 3 s)) q = count_of s3 q"
    by (simp_all add: run proxy_list_stats count_of_stats)
  have out: "\<exists>st. outcome (requests_get w url 3 s) = Inl (RequestException (Failed_after 3 st))
           \<and> total_proxies st = 1 \<and> healthy_proxies st = 1"
    using total healthy by (simp add: run)
  have att: "attempts (requests_get w url 3 s) = 3" "length (attempt_log (requests_get w url 3 s)) = 3"
    by (simp_all add: run)
  have e3: "entry_proxy (attempt_log (requests_get w url 3 s) ! 2) = c"
    "entry_pool (attempt_log (requests_get w url 3 s) ! 2) = s2"
    by (simp_all add: third log_entry_def)
  show ?thesis
    using out att failed first_two c l2 c2' l3 len3 ones
    by (simp add: e3 after)
qed

theorem C5_two_failing_proxies_witness:
  "proxy_list pool_two = [''p1:8080'', ''p2:8080'']
   \<and> count_of pool_two ''p1:8080'' = 0 \<and> count_of pool_two ''p2:8080'' = 0
   \<and> session_get world_all_raise ''u'' 1 ''p2:8080'' = Raises
   \<and> attempts (requests_get world_all_raise ''u'' 3 pool_two) = 3
   \<and> length (attempt_log (requests_get world_all_raise ''u'' 3 pool_two)) = 3
   \<and> map entry_proxy (attempt_log (requests_get world_all_raise ''u'' 3 pool_two)) =
       [''p2:8080'', ''p1:8080'', ''p2:8080'']
   \<and> proxy_list (pool_after (requests_get world_all_raise ''u'' 3 pool_two)) = [''p1:8080'']"
proof -
  have h: "proxy_list pool_two = [''p1:8080'', ''p2:8080'']"
    "count_of pool_two ''p1:8080'' = 0" "count_of pool_two ''p2:8080'' = 0"
    "\<forall>n p. session_get world_all_raise ''u'' n p = Raises"
    by (simp_all add: proxy_list_pool_two count_of_pool_two world_all_raise_def)
  have "attempts (requests_get world_all_raise ''u'' 3 pool_two) = 3
     \<and> length (attempt_log (requests_get world_all_raise ''u'' 3 pool_two)) = 3"
    using C5_two_failing_proxies [OF h] by blast
  with h eval_two_failing show ?thesis by simp
qed

end
